theory Spec2Isabelle
  imports Main "HOL-Library.Word" "HOL-Library.Sublist" "HOL-Library.Multiset"
begin

section \<open>Outcomes of a call\<close>

text \<open>
  A Go call either returns or panics (a nil function value called, a nil pointer
  dereferenced, an index out of range, a send on a closed channel).  A panic is not
  recovered anywhere in the package, so it is a result of its own.
\<close>

datatype 'a outcome = Panics | Returns 'a

section \<open>The execution context (context.Context)\<close>

text \<open>
  The package stores three values in the context.  \<open>PipelineStatDB\<close> is a plain Go
  string, \<open>TracesFlag\<close> and \<open>PipeLineLogLevel\<close> have the named type
  \<open>PipelineContextKey\<close>; a key matches only a key of the same type and text.  A stored
  value is an interface value, so it carries its dynamic type.
\<close>

datatype ckey = StringKey string | ContextKey string

type_synonym etype = string

datatype cval =
    VBool bool
  | VInt int
  | VStatDB etype "nat option"
  | VOther

type_synonym "context" = "ckey \<Rightarrow> cval option"

definition Background :: "context" where
  "Background = (\<lambda>k. None)"

definition WithValue :: "context \<Rightarrow> ckey \<Rightarrow> cval \<Rightarrow> context" where
  "WithValue ctx k v = ctx(k \<mapsto> v)"

definition PipelineStatDB :: ckey where
  "PipelineStatDB = StringKey ''pipeline_stats_db''"

definition TracesFlag :: ckey where
  "TracesFlag = ContextKey ''traces_flag''"

definition PipeLineLogLevel :: ckey where
  "PipeLineLogLevel = ContextKey ''pipeline_log_level''"

subsection \<open>Traces\<close>

definition WithTraces :: "context \<Rightarrow> context" where
  "WithTraces ctx = WithValue ctx TracesFlag (VBool True)"

definition HasTracesEnabled :: "context \<Rightarrow> bool" where
  "HasTracesEnabled ctx = (ctx TracesFlag = Some (VBool True))"

text \<open>
  Modelled from the spec: the implementations of the \<open>Traceable\<close> interface are supplied
  by the user of the package and are not part of it.  The spec asks of an item that it
  can append a stage name to its own trace history, so an item is a payload with the list
  of the names added so far.
\<close>

record 'a item =
  payload :: 'a
  trace :: "string list"

definition AddTrace :: "string \<Rightarrow> 'a item \<Rightarrow> 'a item" where
  "AddTrace nm obj = obj\<lparr>trace := trace obj @ [nm]\<rparr>"

subsection \<open>Logging\<close>

text \<open>
  Both constants are declared by a \<open>const\<close> line of their own, and \<open>iota\<close> is the
  index of the constant within its declaration: it is 0 in a declaration of one constant.
\<close>

definition iota :: "nat \<Rightarrow> int" where
  "iota index_in_declaration = int index_in_declaration"

definition PipelineLogLevelDisabled :: int where
  "PipelineLogLevelDisabled = 0"

definition PipelineLogLevelDebug :: int where
  "PipelineLogLevelDebug = iota 0"

definition WithLogLevel :: "context \<Rightarrow> int \<Rightarrow> context" where
  "WithLogLevel ctx level = WithValue ctx PipeLineLogLevel (VInt level)"

text \<open>
  \<open>Log\<close> returns the line it prints, if it prints one.  \<open>msg\<close> is the text that
  \<open>fmt.Sprintf(fmts, args...)\<close> gives; the line is \<open>[name] msg\<close>.  The comparison is
  one of interface values: it holds when the stored value is a Go \<open>int\<close> equal to the
  constant.
\<close>

definition Log :: "context \<Rightarrow> string \<Rightarrow> string \<Rightarrow> string option" where
  "Log ctx proc_name msg =
     (if ctx PipeLineLogLevel = Some (VInt PipelineLogLevelDebug)
      then Some (''['' @ proc_name @ ''] '' @ msg)
      else None)"

section \<open>The statistics store\<close>

type_synonym time = nat

record Stats =
  Input :: "64 word"
  Output :: "64 word"
  Passthrough :: "64 word"
  Failed :: "64 word"
  LastInput :: time
  LastOutput :: time
  LastPassthrough :: time
  LastFailure :: time
  Started :: time
  Finished :: time
  Name :: string

definition NewStats :: "string \<Rightarrow> Stats" where
  "NewStats name =
     \<lparr>Input = 0, Output = 0, Passthrough = 0, Failed = 0,
      LastInput = 0, LastOutput = 0, LastPassthrough = 0, LastFailure = 0,
      Started = 0, Finished = 0, Name = name\<rparr>"

text \<open>
  A processor is an interface value: the store is keyed by its identity, and its
  \<open>Name()\<close> labels a fresh entry.
\<close>

record procref =
  ident :: nat
  pname :: string

type_synonym StatDB = "nat \<Rightarrow> Stats option"

definition NewStatDB :: StatDB where
  "NewStatDB = (\<lambda>p. None)"

text \<open>
  The stores live behind pointers; \<open>world\<close> gives the store at each address.  The current
  time (\<open>time.Now()\<close>) is an argument of every function that reads it.
\<close>

type_synonym world = "nat \<Rightarrow> StatDB"


definition Stats_TrackStarted :: "time \<Rightarrow> Stats \<Rightarrow> Stats" where
  "Stats_TrackStarted now s = s\<lparr>Started := now\<rparr>"

definition Stats_TrackFinished :: "time \<Rightarrow> Stats \<Rightarrow> Stats" where
  "Stats_TrackFinished now s = s\<lparr>Finished := now\<rparr>"

definition Stats_TrackOutput :: "time \<Rightarrow> Stats \<Rightarrow> Stats" where
  "Stats_TrackOutput now s = s\<lparr>LastOutput := now, Output := Output s + 1\<rparr>"

definition Stats_TrackPassthrough :: "time \<Rightarrow> Stats \<Rightarrow> Stats" where
  "Stats_TrackPassthrough now s = s\<lparr>LastPassthrough := now, Passthrough := Passthrough s + 1\<rparr>"

definition Stats_TrackInput :: "time \<Rightarrow> Stats \<Rightarrow> Stats" where
  "Stats_TrackInput now s = s\<lparr>LastInput := now, Input := Input s + 1\<rparr>"

definition Stats_TrackFailure :: "time \<Rightarrow> Stats \<Rightarrow> Stats" where
  "Stats_TrackFailure now s = s\<lparr>LastFailure := now, Failed := Failed s + 1\<rparr>"

definition getStats :: "StatDB \<Rightarrow> procref \<Rightarrow> Stats \<times> StatDB" where
  "getStats db p =
     (case db (ident p) of
        Some stats \<Rightarrow> (stats, db)
      | None \<Rightarrow> (NewStats (pname p), db(ident p \<mapsto> NewStats (pname p))))"

definition db_trackStarted :: "time \<Rightarrow> StatDB \<Rightarrow> procref \<Rightarrow> StatDB" where
  "db_trackStarted now db p =
     (case getStats db p of (stats, db') \<Rightarrow> db'(ident p \<mapsto> Stats_TrackStarted now stats))"

definition db_trackFinished :: "time \<Rightarrow> StatDB \<Rightarrow> procref \<Rightarrow> StatDB" where
  "db_trackFinished now db p =
     (case getStats db p of (stats, db') \<Rightarrow> db'(ident p \<mapsto> Stats_TrackFinished now stats))"

definition db_trackInput :: "time \<Rightarrow> StatDB \<Rightarrow> procref \<Rightarrow> StatDB" where
  "db_trackInput now db p =
     (case getStats db p of (stats, db') \<Rightarrow> db'(ident p \<mapsto> Stats_TrackInput now stats))"

definition db_trackOutput :: "time \<Rightarrow> StatDB \<Rightarrow> procref \<Rightarrow> StatDB" where
  "db_trackOutput now db p =
     (case getStats db p of (stats, db') \<Rightarrow> db'(ident p \<mapsto> Stats_TrackOutput now stats))"

definition db_trackPassthrough :: "time \<Rightarrow> StatDB \<Rightarrow> procref \<Rightarrow> StatDB" where
  "db_trackPassthrough now db p =
     (case getStats db p of (stats, db') \<Rightarrow> db'(ident p \<mapsto> Stats_TrackPassthrough now stats))"

text \<open>
  \<open>ctx.Value(PipelineStatDB).(*StatDB[E])\<close>: the assertion holds when the stored value
  is a pointer to a store of the same item type, also when that pointer is nil; the
  method called on a nil store then dereferences it and panics.
\<close>

definition lookup_store :: "context \<Rightarrow> etype \<Rightarrow> nat option option" where
  "lookup_store ctx E =
     (case ctx PipelineStatDB of
        Some (VStatDB E' ptr) \<Rightarrow> if E' = E then Some ptr else None
      | _ \<Rightarrow> None)"

definition with_store ::
  "context \<Rightarrow> etype \<Rightarrow> (StatDB \<Rightarrow> StatDB) \<Rightarrow> world \<Rightarrow> world outcome" where
  "with_store ctx E upd w =
     (case lookup_store ctx E of
        None \<Rightarrow> Returns w
      | Some None \<Rightarrow> Panics
      | Some (Some a) \<Rightarrow> Returns (w(a := upd (w a))))"

definition TrackStarted :: "context \<Rightarrow> etype \<Rightarrow> procref \<Rightarrow> time \<Rightarrow> world \<Rightarrow> world outcome" where
  "TrackStarted ctx E processor now w = with_store ctx E (\<lambda>db. db_trackStarted now db processor) w"

definition TrackFinished :: "context \<Rightarrow> etype \<Rightarrow> procref \<Rightarrow> time \<Rightarrow> world \<Rightarrow> world outcome" where
  "TrackFinished ctx E processor now w = with_store ctx E (\<lambda>db. db_trackFinished now db processor) w"

definition TrackInput :: "context \<Rightarrow> etype \<Rightarrow> procref \<Rightarrow> time \<Rightarrow> world \<Rightarrow> world outcome" where
  "TrackInput ctx E processor now w = with_store ctx E (\<lambda>db. db_trackInput now db processor) w"

text \<open>
  \<open>TrackOutput\<close> and \<open>TrackPassthrough\<close> are handed the item.  The item is mutable
  and the trace is added before the store is looked up, so the item after the call is
  given beside the outcome of the call.
\<close>

definition TrackOutput ::
  "context \<Rightarrow> etype \<Rightarrow> procref \<Rightarrow> 'a item \<Rightarrow> time \<Rightarrow> world \<Rightarrow> 'a item \<times> world outcome" where
  "TrackOutput ctx E processor obj now w =
     (if HasTracesEnabled ctx then AddTrace (pname processor) obj else obj,
      with_store ctx E (\<lambda>db. db_trackOutput now db processor) w)"

definition TrackPassthrough ::
  "context \<Rightarrow> etype \<Rightarrow> procref \<Rightarrow> 'a item \<Rightarrow> time \<Rightarrow> world \<Rightarrow> 'a item \<times> world outcome" where
  "TrackPassthrough ctx E processor obj now w =
     (obj, with_store ctx E (\<lambda>db. db_trackOutput now db processor) w)"

section \<open>Processor trees and their construction from a descriptor\<close>

text \<open>
  A leaf is any user-supplied processor.  The composites keep their chain name and their
  children.  \<open>Fanout\<close> and \<open>Sequential\<close> allocate their channel slices at the start of
  every \<open>Execute\<close>, so the slices a value holds between calls are never read and are
  left out; \<open>Parallel\<close> indexes \<open>procChans\<close> as it finds it, so that slice (given by
  the channels it holds, nil being the empty list) is part of the value.
\<close>

datatype 'l processor =
    Leaf 'l
  | Fanout string "'l processor list"
  | Sequential string "'l processor list"
  | Parallel string "'l processor list" "nat list"

datatype err = ErrInvalidType | Errorf string | OtherError string

fun message :: "err \<Rightarrow> string" where
  "message ErrInvalidType = ''invalid pipeline type''"
| "message (Errorf s) = s"
| "message (OtherError s) = s"

type_synonym ('l, 'c) ProcessorFactory = "string \<Rightarrow> 'c \<Rightarrow> err + 'l"

datatype ('l, 'c) SerializedPipeline =
  SerializedPipeline
    (sp_Type: string)
    (sp_Name: string)
    (sp_Config: 'c)
    (sp_Processors: "('l, 'c) SerializedPipeline list")
    (processorFactory: "('l, 'c) ProcessorFactory option")

text \<open>
  \<open>Pipeline\<close> hands its own factory to every child before it builds the child
  (\<open>proc.processorFactory = sp.processorFactory\<close>), so the factory in use anywhere in
  the tree is the root's: \<open>Pipeline_from\<close> takes it as an argument.  The three loops
  over the children are the same loop, \<open>build_children\<close>, which stops at the first child
  that fails.  A nil factory called at a leaf panics.
\<close>

fun Pipeline_from ::
  "('l, 'c) ProcessorFactory option \<Rightarrow> ('l, 'c) SerializedPipeline \<Rightarrow> (err + 'l processor) outcome"
and build_children ::
  "('l, 'c) ProcessorFactory option \<Rightarrow> ('l, 'c) SerializedPipeline list \<Rightarrow> 'l processor list
     \<Rightarrow> (err + 'l processor list) outcome"
where
  "Pipeline_from f (SerializedPipeline ty nm cfg procs own) =
     (if ty = ''fanout'' then
        (case build_children f procs [] of
           Panics \<Rightarrow> Panics
         | Returns (Inl e) \<Rightarrow> Returns (Inl e)
         | Returns (Inr ps) \<Rightarrow> Returns (Inr (Fanout nm ps)))
      else if ty = ''parallel'' then
        (case build_children f procs [] of
           Panics \<Rightarrow> Panics
         | Returns (Inl e) \<Rightarrow> Returns (Inl e)
         | Returns (Inr ps) \<Rightarrow> Returns (Inr (Parallel nm ps [])))
      else if ty = ''sequential'' then
        (case build_children f procs [] of
           Panics \<Rightarrow> Panics
         | Returns (Inl e) \<Rightarrow> Returns (Inl e)
         | Returns (Inr ps) \<Rightarrow> Returns (Inr (Sequential nm ps)))
      else if ty = ''processor'' then
        (case f of
           None \<Rightarrow> Panics
         | Some factory \<Rightarrow>
             (case factory nm cfg of
                Inl e \<Rightarrow> Returns (Inl (Errorf (nm @ '': '' @ message ErrInvalidType)))
              | Inr p \<Rightarrow> Returns (Inr (Leaf p))))
      else Returns (Inl ErrInvalidType))"
| "build_children f [] built = Returns (Inr built)"
| "build_children f (proc # rest) built =
     (case Pipeline_from f proc of
        Panics \<Rightarrow> Panics
      | Returns (Inl e) \<Rightarrow> Returns (Inl e)
      | Returns (Inr builtProc) \<Rightarrow> build_children f rest (built @ [builtProc]))"

definition Pipeline :: "('l, 'c) SerializedPipeline \<Rightarrow> (err + 'l processor) outcome" where
  "Pipeline sp = Pipeline_from (processorFactory sp) sp"

definition SetProcessorFactory ::
  "('l, 'c) ProcessorFactory \<Rightarrow> ('l, 'c) SerializedPipeline \<Rightarrow> ('l, 'c) SerializedPipeline" where
  "SetProcessorFactory f sp =
     SerializedPipeline (sp_Type sp) (sp_Name sp) (sp_Config sp) (sp_Processors sp) (Some f)"

text \<open>The names of the leaf descriptors of a tree, in order.\<close>

fun leaf_names :: "('l, 'c) SerializedPipeline \<Rightarrow> string list" where
  "leaf_names (SerializedPipeline ty nm cfg procs own) =
     (if ty = ''processor'' then [nm] else concat (map leaf_names procs))"

section \<open>Goroutines, channels and wait groups\<close>

text \<open>
  The three composites are concurrent programs: \<open>Execute\<close> makes channels, starts
  goroutines and waits for them.  The model is an interleaving semantics.  A state holds
  the channels, the wait groups and the pool of goroutines; a goroutine is the list of
  the operations it still has to run; one step runs the first operation of one goroutine
  when that operation can go on, or hands one item from a sender to a receiver that wait
  at the same unbuffered channel.
\<close>

record 'a chan =
  buf :: "'a item list"
  cap :: nat
  closed :: bool
  sent :: "'a item list"

text \<open>
  \<open>buf\<close> is the queue of a buffered channel (it stays empty when \<open>cap\<close> is 0),
  and \<open>sent\<close> is the history of all items ever sent on the channel; no operation reads
  the history.  A channel is named by its index in the state.
\<close>

definition new_chan :: "nat \<Rightarrow> 'a chan" where
  "new_chan n = \<lparr>buf = [], cap = n, closed = False, sent = []\<rparr>"

text \<open>
  Modelled from the spec: the leaves are user code and none is in the package.  By the
  processor contract (section 4.1 of the spec, and the comment on the \<open>Processor\<close>
  interface) a leaf reads its input until it is closed, sends zero or more items per
  item read, and closes its output after its input is drained.  A leaf is given by its
  name and by the items it sends for an item it reads.
\<close>

datatype 'a leaf = MapLeaf (leaf_name: string) (leaf_fn: "'a item \<Rightarrow> 'a item list")

text \<open>
  The calls of \<open>Log\<close> and of the statistics hooks are recorded as events, with the
  name of the processor that calls.
\<close>

datatype event =
    EvLog string string
  | EvStarted string
  | EvFinished string
  | EvInput string
  | EvOutput string

datatype hook = NoHook | InputHook | OutputHook

text \<open>
  The operations are the blocking statements of the package, and the loops around them:
  \<^item> \<open>Pump src dst h nm\<close> is \<open>for m := range src { hook; dst <- m }\<close>, the loop of
    every forwarding goroutine (\<open>h\<close> says whether \<open>TrackInput\<close>, \<open>TrackOutput\<close> or
    nothing is called for the item);
  \<^item> \<open>Push dst m\<close> is the send \<open>dst <- m\<close>;
  \<^item> \<open>Bcast input targets nm\<close> is the dispatcher loop of \<open>Fanout\<close>:
    \<open>for msg := range input { TrackInput; for each target { target <- msg } }\<close>;
  \<^item> \<open>CloseCh c\<close> is \<open>close(c)\<close>, \<open>WgDone w\<close> is \<open>w.Done()\<close>, \<open>WgWait w\<close> is
    \<open>w.Wait()\<close>, \<open>Note ev\<close> is a hook called outside a loop;
  \<^item> \<open>Exec p input output\<close> is the call \<open>p.Execute(ctx, input, output)\<close>;
  \<^item> \<open>LeafLoop f input output\<close> is the loop of a leaf;
  \<^item> \<open>Drain c\<close> is the caller reading the pipeline output until it is closed.
\<close>

datatype 'a op =
    Pump nat nat hook string
  | Push nat "'a item"
  | Bcast nat "nat list" string
  | CloseCh nat
  | WgDone nat
  | WgWait nat
  | Note event
  | Exec "'a leaf processor" nat nat
  | LeafLoop "'a item \<Rightarrow> 'a item list" nat nat
  | Drain nat

record 'a state =
  chans :: "'a chan list"
  wgs :: "nat list"
  tasks :: "'a op list list"
  hooks :: "event list"
  collected :: "'a item list"
  panicked :: bool
  env :: "context"
  elem :: etype

subsection \<open>Primitive state changes\<close>

definition set_task :: "nat \<Rightarrow> 'a op list \<Rightarrow> 'a state \<Rightarrow> 'a state" where
  "set_task i t s = s\<lparr>tasks := (tasks s)[i := t]\<rparr>"

definition panic :: "'a state \<Rightarrow> 'a state" where
  "panic s = s\<lparr>panicked := True\<rparr>"

definition log_events :: "event list \<Rightarrow> 'a state \<Rightarrow> 'a state" where
  "log_events evs s = s\<lparr>hooks := hooks s @ evs\<rparr>"

text \<open>
  A call of \<open>TrackStarted\<close>, \<open>TrackFinished\<close>, \<open>TrackInput\<close> or \<open>TrackOutput\<close> by
  a goroutine of the pipeline.  \<open>env\<close> is the context that \<open>Execute\<close> was given and
  \<open>elem\<close> the item type \<open>E\<close> of the pipeline.  As in \<open>with_store\<close>, the call panics
  when the context holds a nil store of that item type, and returns otherwise.  What the
  call writes into the store is left out of the state: the call is recorded as an event.
\<close>

definition hook_call :: "event \<Rightarrow> 'a state \<Rightarrow> 'a state" where
  "hook_call ev s =
     (case lookup_store (env s) (elem s) of
        Some None \<Rightarrow> panic s
      | _ \<Rightarrow> log_events [ev] s)"

definition make_chan :: "nat \<Rightarrow> 'a state \<Rightarrow> nat \<times> 'a state" where
  "make_chan n s = (length (chans s), s\<lparr>chans := chans s @ [new_chan n]\<rparr>)"

definition new_wg :: "'a state \<Rightarrow> nat \<times> 'a state" where
  "new_wg s = (length (wgs s), s\<lparr>wgs := wgs s @ [0]\<rparr>)"

definition wg_add :: "nat \<Rightarrow> 'a state \<Rightarrow> 'a state" where
  "wg_add w s = s\<lparr>wgs := (wgs s)[w := wgs s ! w + 1]\<rparr>"

definition go :: "'a op list \<Rightarrow> 'a state \<Rightarrow> 'a state" where
  "go t s = s\<lparr>tasks := tasks s @ [t]\<rparr>"

definition enqueue :: "nat \<Rightarrow> 'a item \<Rightarrow> 'a state \<Rightarrow> 'a state" where
  "enqueue c m s =
     s\<lparr>chans := (chans s)[c := (chans s ! c)\<lparr>buf := buf (chans s ! c) @ [m],
                                              sent := sent (chans s ! c) @ [m]\<rparr>]\<rparr>"

definition dequeue :: "nat \<Rightarrow> 'a state \<Rightarrow> 'a state" where
  "dequeue c s = s\<lparr>chans := (chans s)[c := (chans s ! c)\<lparr>buf := tl (buf (chans s ! c))\<rparr>]\<rparr>"

definition handed :: "nat \<Rightarrow> 'a item \<Rightarrow> 'a state \<Rightarrow> 'a state" where
  "handed c m s = s\<lparr>chans := (chans s)[c := (chans s ! c)\<lparr>sent := sent (chans s ! c) @ [m]\<rparr>]\<rparr>"

definition close_chan :: "nat \<Rightarrow> 'a state \<Rightarrow> 'a state" where
  "close_chan c s = s\<lparr>chans := (chans s)[c := (chans s ! c)\<lparr>closed := True\<rparr>]\<rparr>"

subsection \<open>Execute\<close>

definition Fanout_Name :: "string \<Rightarrow> string" where
  "Fanout_Name ChainName = ''Fanout/'' @ ChainName"

definition Sequential_Name :: "string \<Rightarrow> string" where
  "Sequential_Name ChainName = ''Sequential/'' @ ChainName"

definition Parallel_Name :: "string \<Rightarrow> string" where
  "Parallel_Name ChainName = ''Parallel/'' @ ChainName"

text \<open>
  The part of \<open>Execute\<close> up to \<open>wg.Wait()\<close> calls \<open>Log\<close> and \<open>TrackStarted\<close>,
  tests the number of children, makes channels and starts goroutines; none of these
  statements blocks and none touches a channel that another goroutine already holds, so
  it is run as one step.  \<open>TrackStarted\<close> comes before the test of the number of
  children, and when it panics nothing after it is run.  The goroutines that \<open>Execute\<close>
  starts are added to the pool and the caller goes on with the rest of \<open>Execute\<close>,
  followed by \<open>k\<close>, what it had to do after the call.

  The loop over the children of \<open>Fanout\<close>.  It gives back \<open>procInChans\<close>.  (The slices
  are made with the length of \<open>Processors\<close> and filled at the index of the round; here
  they grow by one element a round.)
\<close>

fun fanout_loop ::
  "'a leaf processor list \<Rightarrow> nat \<Rightarrow> nat \<Rightarrow> 'a state \<Rightarrow> nat list \<times> 'a state" where
  "fanout_loop [] wg fanoutCollector s = ([], s)"
| "fanout_loop (proc # rest) wg fanoutCollector s =
     (case make_chan 200 s of (procInput, s1) \<Rightarrow>
      case make_chan 200 s1 of (procOutput, s2) \<Rightarrow>
      case fanout_loop rest wg fanoutCollector
             (go [Pump procOutput fanoutCollector NoHook [], WgDone wg] (wg_add wg
               (go [Exec proc procInput procOutput, WgDone wg] (wg_add wg s2))))
      of (procInChans, s3) \<Rightarrow> (procInput # procInChans, s3))"

text \<open>
  The loop over the children of \<open>Sequential\<close>, with \<open>procIndex\<close>, the slice
  \<open>procOutChans\<close> filled so far and \<open>entryChannel\<close>.
\<close>

fun sequential_loop ::
  "'a leaf processor list \<Rightarrow> nat \<Rightarrow> nat \<Rightarrow> nat list \<Rightarrow> nat option \<Rightarrow> 'a state
     \<Rightarrow> nat list \<times> nat option \<times> 'a state" where
  "sequential_loop [] procIndex wg procOutChans entryChannel s = (procOutChans, entryChannel, s)"
| "sequential_loop (proc # rest) procIndex wg procOutChans entryChannel s =
     (case (if procIndex = 0
            then (case make_chan 0 s of (c, s') \<Rightarrow> (c, Some c, s'))
            else (procOutChans ! (procIndex - 1), entryChannel, s))
      of (procInput, entryChannel', s1) \<Rightarrow>
      case make_chan 0 s1 of (procOutput, s2) \<Rightarrow>
        sequential_loop rest (procIndex + 1) wg (procOutChans @ [procOutput]) entryChannel'
          (go [Exec proc procInput procOutput, WgDone wg] (wg_add wg s2)))"

text \<open>
  The loop over the children of \<open>Parallel\<close>.  \<open>procChans\<close> is the slice as the value
  holds it: \<open>Execute\<close> does not make it, and the assignment
  \<open>chain.procChans[procIndex] = procOutput\<close> panics when \<open>procIndex\<close> is not below its
  length.  (Each goroutine runs the child of its own round, as the loop variable of Go
  1.22 and later gives it.)
\<close>

fun parallel_loop ::
  "'a leaf processor list \<Rightarrow> nat \<Rightarrow> nat \<Rightarrow> nat list \<Rightarrow> nat \<Rightarrow> nat \<Rightarrow> string \<Rightarrow> 'a state
     \<Rightarrow> 'a state" where
  "parallel_loop [] procIndex wg procChans input output nm s = s"
| "parallel_loop (proc # rest) procIndex wg procChans input output nm s =
     (case make_chan 0 s of (procOutput, s1) \<Rightarrow>
        if procIndex < length procChans
        then parallel_loop rest (procIndex + 1) wg (procChans[procIndex := procOutput])
               input output nm
               (go [Pump procOutput output OutputHook nm, WgDone wg] (wg_add wg
                 (go [Exec proc input procOutput, WgDone wg] (wg_add wg s1))))
        else panic s1)"

text \<open>
  \<open>Execute p input output i k s\<close>: goroutine \<open>i\<close> calls \<open>p.Execute(ctx, input, output)\<close>
  in state \<open>s\<close> and has \<open>k\<close> to do after the call.
\<close>

fun Execute ::
  "'a leaf processor \<Rightarrow> nat \<Rightarrow> nat \<Rightarrow> nat \<Rightarrow> 'a op list \<Rightarrow> 'a state \<Rightarrow> 'a state" where
  "Execute (Leaf l) input output i k s =
     set_task i (LeafLoop (leaf_fn l) input output # CloseCh output # k) s"
| "Execute (Fanout ChainName Processors) input output i k s =
     (let nm = Fanout_Name ChainName;
          s0 = hook_call (EvStarted nm) (log_events [EvLog nm ''starting''] s)
      in if panicked s0 then s0
         else if length Processors = 0 then set_task i (CloseCh output # k) s0
         else
           case new_wg s0 of (wg, s1) \<Rightarrow>
           case new_wg s1 of (collectorWg, s2) \<Rightarrow>
           case make_chan 0 s2 of (fanoutCollector, s3) \<Rightarrow>
           case fanout_loop Processors wg fanoutCollector
                  (go [Pump fanoutCollector output OutputHook nm, WgDone collectorWg]
                      (wg_add collectorWg s3))
           of (procInChans, s4) \<Rightarrow>
             set_task i
               ([WgWait wg, CloseCh fanoutCollector, WgWait collectorWg,
                 Note (EvFinished nm), CloseCh output] @ k)
               (go ([Bcast input procInChans nm] @ map CloseCh procInChans @ [WgDone wg])
                   (wg_add wg s4)))"
| "Execute (Sequential ChainName Processors) input output i k s =
     (let nm = Sequential_Name ChainName;
          s0 = hook_call (EvStarted nm) (log_events [EvLog nm ''starting''] s)
      in if panicked s0 then s0
         else if length Processors = 0 then set_task i (CloseCh output # k) s0
         else
           case new_wg s0 of (wg, s1) \<Rightarrow>
           case sequential_loop Processors 0 wg [] None s1
           of (procOutChans, entryChannel, s2) \<Rightarrow>
             set_task i ([WgWait wg, Note (EvFinished nm), CloseCh output] @ k)
               (go [Pump (procOutChans ! (length Processors - 1)) output OutputHook nm, WgDone wg]
                 (wg_add wg
                   (go [Pump input (the entryChannel) InputHook nm, CloseCh (the entryChannel),
                        WgDone wg]
                     (wg_add wg s2)))))"
| "Execute (Parallel ChainName Processors procChans) input output i k s =
     (let nm = Parallel_Name ChainName;
          s0 = hook_call (EvStarted nm) (log_events [EvLog nm ''starting''] s)
      in if panicked s0 then s0
         else if length Processors = 0 then set_task i (CloseCh output # k) s0
         else
           case new_wg s0 of (wg, s1) \<Rightarrow>
             (let s2 = parallel_loop Processors 0 wg procChans input output nm s1
              in if panicked s2 then s2
                 else set_task i ([WgWait wg, Note (EvFinished nm), CloseCh output] @ k) s2))"

subsection \<open>Steps\<close>

fun recv_from :: "'a op \<Rightarrow> nat option" where
  "recv_from (Pump src dst h nm) = Some src"
| "recv_from (Bcast input targets nm) = Some input"
| "recv_from (LeafLoop f input output) = Some input"
| "recv_from (Drain c) = Some c"
| "recv_from _ = None"

definition hooked :: "context \<Rightarrow> hook \<Rightarrow> string \<Rightarrow> 'a item \<Rightarrow> 'a item" where
  "hooked c h nm m = (if h = OutputHook \<and> HasTracesEnabled c then AddTrace nm m else m)"

text \<open>The hook that a forwarding loop calls for an item.\<close>

fun call_hook :: "hook \<Rightarrow> string \<Rightarrow> 'a state \<Rightarrow> 'a state" where
  "call_hook NoHook nm s = s"
| "call_hook InputHook nm s = hook_call (EvInput nm) s"
| "call_hook OutputHook nm s = hook_call (EvOutput nm) s"

text \<open>
  What a receiving loop does with the item \<open>m\<close> it has received: the operations of one
  round of its body, then the loop again.

  An item is a value here.  In the package an item that can take a trace is a pointer,
  and the dispatcher of \<open>Fanout\<close> sends the same pointer to every child, so that a trace
  added to the item on one path shows on every copy.  The payloads, the number and the
  order of the items are as in the package; the traces are as in the package as long as
  each item is held by one goroutine at a time, which is so in a \<open>Sequential\<close> of
  leaves that send what they make from the item they read.
\<close>

fun on_item :: "context \<Rightarrow> 'a op \<Rightarrow> 'a item \<Rightarrow> 'a op list" where
  "on_item c (Pump src dst h nm) m = [Push dst (hooked c h nm m), Pump src dst h nm]"
| "on_item c (Bcast input targets nm) m = map (\<lambda>t. Push t m) targets @ [Bcast input targets nm]"
| "on_item c (LeafLoop f input output) m = map (Push output) (f m) @ [LeafLoop f input output]"
| "on_item c (Drain out) m = [Drain out]"
| "on_item c h m = [h]"

fun item_effect :: "'a op \<Rightarrow> 'a item \<Rightarrow> 'a state \<Rightarrow> 'a state" where
  "item_effect (Pump src dst h nm) m s = call_hook h nm s"
| "item_effect (Bcast input targets nm) m s = hook_call (EvInput nm) s"
| "item_effect (Drain out) m s = s\<lparr>collected := collected s @ [m]\<rparr>"
| "item_effect h m s = s"

definition deliver :: "nat \<Rightarrow> 'a op \<Rightarrow> 'a op list \<Rightarrow> 'a item \<Rightarrow> 'a state \<Rightarrow> 'a state" where
  "deliver j h k m s = set_task j (on_item (env s) h m @ k) (item_effect h m s)"

text \<open>
  A receive takes the first item of the buffer; on a closed and drained channel the
  \<open>range\<close> loop ends; otherwise the goroutine waits.  An operation on a nil channel
  (an index that names no channel) waits for ever.
\<close>

definition receive :: "nat \<Rightarrow> 'a op \<Rightarrow> 'a op list \<Rightarrow> 'a state \<Rightarrow> 'a state option" where
  "receive i h k s =
     (case recv_from h of
        None \<Rightarrow> None
      | Some c \<Rightarrow>
          if c < length (chans s) then
            (case buf (chans s ! c) of
               m # rest \<Rightarrow> Some (deliver i h k m (dequeue c s))
             | [] \<Rightarrow> if closed (chans s ! c) then Some (set_task i k s) else None)
          else None)"

fun exec_op :: "nat \<Rightarrow> 'a op \<Rightarrow> 'a op list \<Rightarrow> 'a state \<Rightarrow> 'a state option" where
  "exec_op i (Push c m) k s =
     (if c < length (chans s) then
        (if closed (chans s ! c) then Some (panic s)
         else if length (buf (chans s ! c)) < cap (chans s ! c)
           then Some (set_task i k (enqueue c m s))
           else None)
      else None)"
| "exec_op i (CloseCh c) k s =
     (if c < length (chans s) \<and> \<not> closed (chans s ! c)
      then Some (set_task i k (close_chan c s))
      else Some (panic s))"
| "exec_op i (WgDone w) k s =
     (if w < length (wgs s) \<and> 0 < wgs s ! w
      then Some (set_task i k (s\<lparr>wgs := (wgs s)[w := wgs s ! w - 1]\<rparr>))
      else Some (panic s))"
| "exec_op i (WgWait w) k s =
     (if w < length (wgs s) \<and> wgs s ! w = 0 then Some (set_task i k s) else None)"
| "exec_op i (Note ev) k s = Some (set_task i k (hook_call ev s))"
| "exec_op i (Exec p input output) k s = Some (Execute p input output i k s)"
| "exec_op i h k s = receive i h k s"

datatype action = Local nat | Sync nat nat

text \<open>
  \<open>Local i\<close>: goroutine \<open>i\<close> runs its first operation.  \<open>Sync i j\<close>: goroutine \<open>i\<close>,
  at a send on an unbuffered channel, hands the item to goroutine \<open>j\<close>, at a receive on
  the same channel.  After a panic the program is gone and nothing runs.
\<close>

definition fire :: "action \<Rightarrow> 'a state \<Rightarrow> 'a state option" where
  "fire a s =
     (if panicked s then None
      else case a of
        Local i \<Rightarrow>
          (if i < length (tasks s)
           then (case tasks s ! i of [] \<Rightarrow> None | h # k \<Rightarrow> exec_op i h k s)
           else None)
      | Sync i j \<Rightarrow>
          (if i < length (tasks s) \<and> j < length (tasks s) \<and> i \<noteq> j
           then (case tasks s ! i of
                   Push c m # k \<Rightarrow>
                     (case tasks s ! j of
                        h # k' \<Rightarrow>
                          if recv_from h = Some c \<and> c < length (chans s)
                             \<and> cap (chans s ! c) = 0 \<and> \<not> closed (chans s ! c)
                          then Some (deliver j h k' m (set_task i k (handed c m s)))
                          else None
                      | [] \<Rightarrow> None)
                 | _ \<Rightarrow> None)
           else None))"

definition step :: "'a state \<Rightarrow> 'a state \<Rightarrow> bool" where
  "step s s' = (\<exists>a. fire a s = Some s')"

definition reachable :: "'a state \<Rightarrow> 'a state \<Rightarrow> bool" where
  "reachable s s' = step\<^sup>*\<^sup>* s s'"

definition stuck :: "'a state \<Rightarrow> bool" where
  "stuck s = (\<forall>a. fire a s = None)"

definition finished :: "'a state \<Rightarrow> bool" where
  "finished s = (\<not> panicked s \<and> list_all (\<lambda>t. t = []) (tasks s))"

fun run :: "action list \<Rightarrow> 'a state \<Rightarrow> 'a state option" where
  "run [] s = Some s"
| "run (a # as) s = (case fire a s of None \<Rightarrow> None | Some s' \<Rightarrow> run as s')"

subsection \<open>A run of a pipeline\<close>

text \<open>
  Modelled from the spec: the caller of the root's \<open>Execute\<close> is not in the package.  By
  the comment on the \<open>Processor\<close> interface the caller writes the input and closes the
  input channel when all data is written, and does not close the output.  Goroutine 0
  sends the items \<open>xs\<close> on channel 0 and closes it, goroutine 1 calls \<open>Execute\<close> of the
  root with channel 0 as input and channel 1 as output, and goroutine 2 reads channel 1
  until it is closed; what it reads is \<open>collected\<close>.  The two channels have the
  capacities \<open>cin\<close> and \<open>cout\<close>, \<open>c\<close> is the context given to \<open>Execute\<close> and \<open>E\<close>
  the item type of the pipeline.
\<close>

definition start ::
  "context \<Rightarrow> etype \<Rightarrow> 'a leaf processor \<Rightarrow> nat \<Rightarrow> nat \<Rightarrow> 'a item list \<Rightarrow> 'a state" where
  "start c E root cin cout xs =
     \<lparr>chans = [new_chan cin, new_chan cout], wgs = [],
      tasks = [map (Push 0) xs @ [CloseCh 0], [Exec root 0 1], [Drain 1]],
      hooks = [], collected = [], panicked = False, env = c, elem = E\<rparr>"

subsection \<open>Leaves and inputs used in the examples\<close>

text \<open>
  Modelled from the spec: a pass-through leaf sends every item it reads, unchanged, and an
  "add 1" leaf sends the item with its payload increased by one.
\<close>

definition pass_through :: "string \<Rightarrow> 'a leaf" where
  "pass_through nm = MapLeaf nm (\<lambda>m. [m])"

definition add_one :: "string \<Rightarrow> int leaf" where
  "add_one nm = MapLeaf nm (\<lambda>m. [m\<lparr>payload := payload m + 1\<rparr>])"

definition item_of :: "'a \<Rightarrow> 'a item" where
  "item_of x = \<lparr>payload = x, trace = []\<rparr>"

definition leaf_factory :: "(int leaf, unit) ProcessorFactory" where
  "leaf_factory name cfg = Inr (pass_through name)"

definition refusing_factory :: "(nat, unit) ProcessorFactory" where
  "refusing_factory name cfg = (if name = ''bad'' then Inl (OtherError ''no such leaf'') else Inr 0)"


subsection \<open>Predicates used in the proofs\<close>


text \<open>
  The states in which the root has not yet been called: only the caller's writer may have
  moved, nothing has been read from the output and the output is as it was made.
\<close>

definition producer_op :: "'a op \<Rightarrow> bool" where
  "producer_op h = (case h of Push c m \<Rightarrow> c = 0 | CloseCh c \<Rightarrow> c = 0 | _ \<Rightarrow> False)"

definition waiting_for_root :: "'a leaf processor \<Rightarrow> nat \<Rightarrow> 'a state \<Rightarrow> bool" where
  "waiting_for_root root cout s =
     (length (tasks s) = 3 \<and> 2 \<le> length (chans s) \<and> chans s ! 1 = new_chan cout
      \<and> collected s = [] \<and> tasks s ! 1 = [Exec root 0 1] \<and> tasks s ! 2 = [Drain 1]
      \<and> list_all producer_op (tasks s ! 0))"

subsection \<open>A Sequential of leaves: the expected output\<close>

text \<open>
  Modelled from the spec: a leaf that sends exactly one item for every item it reads,
  the item \<open>g m\<close> for the item \<open>m\<close>.  A chain of such leaves is given by the list \<open>gs\<close>
  of their names and functions.
\<close>

definition map_leaf :: "string \<Rightarrow> ('a item \<Rightarrow> 'a item) \<Rightarrow> 'a leaf" where
  "map_leaf nm g = MapLeaf nm (\<lambda>m. [g m])"




subsection \<open>A Sequential of leaves: the invariant of a run\<close>

text \<open>
  The goroutines of a running \<open>Sequential\<close> of \<open>N\<close> leaves form one lane of \<open>N + 2\<close>
  stages: stage 0 is the goroutine that feeds the first child from the input, the stages
  1 to \<open>N\<close> are the children, and stage \<open>N + 1\<close> is the goroutine that drains the last
  child into the output.  Stage \<open>k\<close> reads the channel \<open>seq_ch N k\<close>, writes the channel
  \<open>seq_ch N (k + 1)\<close> and is the goroutine \<open>seq_tk N k\<close> of the pool; it applies
  \<open>seq_tf c nm gs k\<close> to every item, and \<open>seq_loop nm gs k\<close> is its loop.
\<close>

definition seq_ch :: "nat \<Rightarrow> nat \<Rightarrow> nat" where
  "seq_ch N k = (if k = 0 then 0 else if k = N + 2 then 1 else k + 1)"

definition seq_tk :: "nat \<Rightarrow> nat \<Rightarrow> nat" where
  "seq_tk N k = (if k = 0 then N + 3 else if k = N + 1 then N + 4 else k + 2)"

definition seq_tf ::
  "context \<Rightarrow> string \<Rightarrow> (string \<times> ('a item \<Rightarrow> 'a item)) list \<Rightarrow> nat \<Rightarrow> 'a item \<Rightarrow> 'a item" where
  "seq_tf c nm gs k =
     (if k = 0 then (\<lambda>m. m) else if k = length gs + 1 then hooked c OutputHook nm
      else snd (gs ! (k - 1)))"

definition seq_loop :: "string \<Rightarrow> (string \<times> ('a item \<Rightarrow> 'a item)) list \<Rightarrow> nat \<Rightarrow> 'a op" where
  "seq_loop nm gs k =
     (if k = 0 then Pump 0 2 InputHook nm
      else if k = length gs + 1 then Pump (length gs + 2) 1 OutputHook nm
      else LeafLoop (\<lambda>m. [snd (gs ! (k - 1)) m]) (k + 1) (k + 2))"

text \<open>What a child has to do before its \<open>Execute\<close> has been called.\<close>

definition seq_pre :: "(string \<times> ('a item \<Rightarrow> 'a item)) list \<Rightarrow> nat \<Rightarrow> 'a op list option" where
  "seq_pre gs k =
     (if 1 \<le> k \<and> k \<le> length gs
      then Some [Exec (Leaf (map_leaf (fst (gs ! (k - 1))) (snd (gs ! (k - 1))))) (k + 1) (k + 2),
                 WgDone 0]
      else None)"


text \<open>
  One stage, with its loop \<open>L\<close>, the channel \<open>w\<close> it writes, its wait group \<open>g\<close>, whether
  it closes \<open>w\<close> itself when its input is drained (\<open>closer\<close>: the feeder and the leaves do,
  the drain does not), and its function \<open>t\<close>.  \<open>T\<close> is what the goroutine still has to
  do, \<open>rd\<close> and \<open>wr\<close> are the channels it reads and writes.  The items sent on \<open>wr\<close>,
  the item the goroutine holds and those waiting in the buffer of \<open>rd\<close> are together
  the items sent on \<open>rd\<close>, each taken through \<open>t\<close>, in the same order; the goroutine is at
  one of the points of its loop; and \<open>wr\<close> is closed exactly when the goroutine is past
  its \<open>close\<close>.
\<close>

definition held :: "'a op list \<Rightarrow> 'a item list" where
  "held T = (case T of Push c m # k \<Rightarrow> [m] | _ \<Rightarrow> [])"

definition exhausted :: "'a chan \<Rightarrow> bool" where
  "exhausted ch = (closed ch \<and> buf ch = [])"

definition stage_tail :: "nat \<Rightarrow> nat \<Rightarrow> bool \<Rightarrow> 'a op list" where
  "stage_tail w g closer = (if closer then [CloseCh w, WgDone g] else [WgDone g])"

definition stage_rel ::
  "'a op \<Rightarrow> nat \<Rightarrow> nat \<Rightarrow> bool \<Rightarrow> 'a op list option \<Rightarrow> ('a item \<Rightarrow> 'a item)
     \<Rightarrow> 'a op list \<Rightarrow> 'a chan \<Rightarrow> 'a chan \<Rightarrow> bool" where
  "stage_rel L w g closer pre t T rd wr =
     (sent wr @ held T @ map t (buf rd) = map t (sent rd)
      \<and> (pre = Some T \<or> T = L # stage_tail w g closer
          \<or> (\<exists>m. T = Push w m # L # stage_tail w g closer)
          \<or> (exhausted rd
              \<and> ((closer \<and> T = [CloseCh w, WgDone g]) \<or> T = [WgDone g] \<or> T = [])))
      \<and> (closer \<longrightarrow> (closed wr \<longleftrightarrow> T = [WgDone g] \<or> T = [])))"

definition seq_stage_ok ::
  "context \<Rightarrow> string \<Rightarrow> (string \<times> ('a item \<Rightarrow> 'a item)) list \<Rightarrow> 'a state \<Rightarrow> nat \<Rightarrow> bool" where
  "seq_stage_ok c nm gs s k =
     stage_rel (seq_loop nm gs k) (seq_ch (length gs) (k + 1)) 0 (k \<le> length gs)
       (seq_pre gs k) (seq_tf c nm gs k)
       (tasks s ! seq_tk (length gs) k)
       (chans s ! seq_ch (length gs) k) (chans s ! seq_ch (length gs) (k + 1))"










subsection \<open>A Sequential of leaves: the measure of a state\<close>

text \<open>
  A bound on the number of steps that are left, for an input of \<open>L\<close> items: every
  operation still to run counts (a call of \<open>Execute\<close> for all that it starts), and every
  channel counts twice the number of items that may still be sent on it or are waiting
  in its buffer.  \<open>simple\<close> holds of the operations for which one received item makes at
  most one send.
\<close>

fun op_weight :: "nat \<Rightarrow> 'a op \<Rightarrow> nat" where
  "op_weight L (Exec (Sequential nm ps) a b) = 2 * (length ps + 1) * L + 4 * length ps + 9"
| "op_weight L (Exec p a b) = 3"
| "op_weight L h = 1"

definition weight :: "nat \<Rightarrow> 'a op list \<Rightarrow> nat" where
  "weight L T = sum_list (map (op_weight L) T)"

definition chan_todo :: "nat \<Rightarrow> 'a chan \<Rightarrow> nat" where
  "chan_todo L ch = L + length (buf ch) - length (sent ch)"



section \<open>Properties of the hooks and of the construction\<close>

subsection \<open>Helper lemmas\<close>

lemma with_store_absent:
  "ctx PipelineStatDB = None \<Longrightarrow> with_store ctx E upd w = Returns w"
  by (simp add: with_store_def lookup_store_def)

lemma with_store_present:
  "ctx PipelineStatDB = Some (VStatDB E (Some a)) \<Longrightarrow>
   with_store ctx E upd w = Returns (w(a := upd (w a)))"
  by (simp add: with_store_def lookup_store_def)

lemma db_trackOutput_entry:
  "db_trackOutput now db p = db(ident p \<mapsto> Stats_TrackOutput now (fst (getStats db p)))"
  by (auto simp: db_trackOutput_def getStats_def split: option.splits)

lemma build_children_abort:
  assumes "list_all (\<lambda>p. \<exists>b. Pipeline_from f p = Returns (Inr b)) pre"
    and "Pipeline_from f c = Returns (Inl e)"
  shows "build_children f (pre @ c # post) built = Returns (Inl e)"
  using assms by (induction pre arbitrary: built) auto

lemma Pipeline_from_errors:
  "Pipeline_from f sp = Returns (Inl e) \<Longrightarrow>
     e = ErrInvalidType
     \<or> (\<exists>nm \<in> set (leaf_names sp). e = Errorf (nm @ '': invalid pipeline type''))"
  "build_children f sps built = Returns (Inl e) \<Longrightarrow>
     e = ErrInvalidType
     \<or> (\<exists>sp \<in> set sps. \<exists>nm \<in> set (leaf_names sp). e = Errorf (nm @ '': invalid pipeline type''))"
proof (induction f sp and f sps built rule: Pipeline_from_build_children.induct)
  case (1 f ty nm cfg procs own)
  then show ?case
    by (auto split: if_splits outcome.splits sum.splits option.splits)
next
  case (2 f built)
  then show ?case by simp
next
  case (3 f proc rest built)
  then show ?case
    by (auto split: outcome.splits sum.splits)
qed

subsection \<open>The log level\<close>

text \<open>
  C10.  \<open>PipelineLogLevelDisabled\<close> and \<open>PipelineLogLevelDebug\<close> are both 0.  \<open>Log\<close>
  prints a line exactly when the value stored under the log-level key is the Go int 0:
  a context made by \<open>WithLogLevel ctx PipelineLogLevelDisabled\<close> passes the debug check
  and logs, and a context that holds no log level never logs.
\<close>

theorem log_level_debug_is_zero:
  "PipelineLogLevelDisabled = 0 \<and> PipelineLogLevelDebug = 0
   \<and> ((\<exists>line. Log ctx nm msg = Some line) \<longleftrightarrow> ctx PipeLineLogLevel = Some (VInt 0))
   \<and> Log (WithLogLevel ctx PipelineLogLevelDisabled) nm msg = Some (''['' @ nm @ ''] '' @ msg)
   \<and> (ctx PipeLineLogLevel = None \<longrightarrow> Log ctx nm msg = None)"
  by (simp add: PipelineLogLevelDisabled_def PipelineLogLevelDebug_def iota_def Log_def
      WithLogLevel_def WithValue_def)

theorem log_level_debug_is_zero_witness:
  "Background PipeLineLogLevel = None \<and> Log Background ''Fanout/x'' ''starting'' = None
   \<and> Log (WithLogLevel Background PipelineLogLevelDisabled) ''Fanout/x'' ''starting''
       = Some ''[Fanout/x] starting''"
  using log_level_debug_is_zero [of Background "''Fanout/x''" "''starting''"]
  by (simp add: Background_def PipelineLogLevelDisabled_def)

subsection \<open>The statistics hooks\<close>



text \<open>
  C8.  \<open>TrackOutput\<close> appends the processor's name to the item's trace exactly when
  the context holds the traces flag as \<open>WithTraces\<close> sets it (the boolean true under
  \<open>TracesFlag\<close>).  When the context holds no statistics store, \<open>TrackOutput\<close>,
  \<open>TrackPassthrough\<close>, \<open>TrackInput\<close>, \<open>TrackStarted\<close> and \<open>TrackFinished\<close> return
  without a panic and leave every store as it was.
\<close>

theorem TrackOutput_traces_and_silent_without_store:
  "fst (TrackOutput ctx E p obj now w)
      = (if HasTracesEnabled ctx then obj\<lparr>trace := trace obj @ [pname p]\<rparr> else obj)
   \<and> (HasTracesEnabled ctx \<longleftrightarrow> ctx TracesFlag = Some (VBool True))
   \<and> HasTracesEnabled (WithTraces ctx)
   \<and> (ctx PipelineStatDB = None \<longrightarrow>
         snd (TrackOutput ctx E p obj now w) = Returns w
       \<and> snd (TrackPassthrough ctx E p obj now w) = Returns w
       \<and> TrackInput ctx E p now w = Returns w
       \<and> TrackStarted ctx E p now w = Returns w
       \<and> TrackFinished ctx E p now w = Returns w)"
  by (simp add: TrackOutput_def TrackPassthrough_def TrackInput_def TrackStarted_def
      TrackFinished_def with_store_absent AddTrace_def HasTracesEnabled_def WithTraces_def
      WithValue_def)

theorem TrackOutput_traces_and_silent_without_store_witness:
  "WithTraces Background PipelineStatDB = None
   \<and> TrackOutput (WithTraces Background) ''E'' \<lparr>ident = 7, pname = ''leaf''\<rparr>
        \<lparr>payload = (1::nat), trace = [''a'']\<rparr> 5 (\<lambda>a. NewStatDB)
      = (\<lparr>payload = 1, trace = [''a'', ''leaf'']\<rparr>, Returns (\<lambda>a. NewStatDB))
   \<and> TrackInput (WithTraces Background) ''E'' \<lparr>ident = 7, pname = ''leaf''\<rparr> 5 (\<lambda>a. NewStatDB)
      = Returns (\<lambda>a. NewStatDB)"
proof -
  have h: "WithTraces Background PipelineStatDB = None"
    by (simp add: WithTraces_def WithValue_def Background_def PipelineStatDB_def TracesFlag_def)
  have t: "HasTracesEnabled (WithTraces Background)"
    by (simp add: HasTracesEnabled_def WithTraces_def WithValue_def)
  show ?thesis
    using TrackOutput_traces_and_silent_without_store [of "WithTraces Background" "''E''"
        "\<lparr>ident = 7, pname = ''leaf''\<rparr>" "\<lparr>payload = (1::nat), trace = [''a'']\<rparr>" 5
        "\<lambda>a. NewStatDB"] h t
    by (simp add: prod_eq_iff)
qed

subsection \<open>Construction errors\<close>

text \<open>
  C7, as the claim states it, fails for a descriptor of an unknown kind: the error is the
  bare \<open>ErrInvalidType\<close>, whose text does not hold the node's name, and two nodes that
  differ only in their names give the same error.
\<close>

theorem Pipeline_unknown_kind_error_is_unnamed:
  "Pipeline (SerializedPipeline ''bogus'' ''alpha'' () [] (Some (\<lambda>n c. Inr (0::nat))))
      = Returns (Inl ErrInvalidType)
   \<and> message ErrInvalidType = ''invalid pipeline type''
   \<and> \<not> sublist ''alpha'' (message ErrInvalidType)
   \<and> Pipeline (SerializedPipeline ''bogus'' ''beta'' () [] (Some (\<lambda>n c. Inr (0::nat))))
      = Pipeline (SerializedPipeline ''bogus'' ''alpha'' () [] (Some (\<lambda>n c. Inr (0::nat))))"
proof -
  have "\<not> sublist ''alpha'' ''invalid pipeline type''" by code_simp
  then show ?thesis by (simp add: Pipeline_def)
qed

text \<open>
  C7, amended.  Building the tree returns at once.  A descriptor whose kind is none of
  fanout, sequential, parallel and processor gives the bare \<open>ErrInvalidType\<close>, with no
  name in it.  A leaf whose factory returns an error gives the error whose text is the
  leaf's name, a colon and "invalid pipeline type".  In a composite the first child that
  fails ends the assembly, and the composite returns that child's error as it is.  Hence
  every error that \<open>Pipeline\<close> returns is either the bare \<open>ErrInvalidType\<close> or names a
  leaf descriptor of the tree.
\<close>

theorem Pipeline_fails_fast:
  "(ty \<notin> {''fanout'', ''parallel'', ''sequential'', ''processor''} \<longrightarrow>
      Pipeline (SerializedPipeline ty nm cfg procs own) = Returns (Inl ErrInvalidType))
   \<and> (factory nm cfg = Inl e0 \<longrightarrow>
      Pipeline (SerializedPipeline ''processor'' nm cfg procs (Some factory))
        = Returns (Inl (Errorf (nm @ '': invalid pipeline type''))))
   \<and> (ty \<in> {''fanout'', ''parallel'', ''sequential''}
       \<and> list_all (\<lambda>p. \<exists>b. Pipeline_from own p = Returns (Inr b)) pre
       \<and> Pipeline_from own c = Returns (Inl e) \<longrightarrow>
      Pipeline (SerializedPipeline ty nm cfg (pre @ c # post) own) = Returns (Inl e))
   \<and> (Pipeline sp = Returns (Inl e') \<longrightarrow>
      e' = ErrInvalidType
      \<or> (\<exists>n \<in> set (leaf_names sp). e' = Errorf (n @ '': invalid pipeline type'')))"
proof (intro conjI impI)
  assume "ty \<notin> {''fanout'', ''parallel'', ''sequential'', ''processor''}"
  then show "Pipeline (SerializedPipeline ty nm cfg procs own) = Returns (Inl ErrInvalidType)"
    by (simp add: Pipeline_def)
next
  assume "factory nm cfg = Inl e0"
  then show "Pipeline (SerializedPipeline ''processor'' nm cfg procs (Some factory))
        = Returns (Inl (Errorf (nm @ '': invalid pipeline type'')))"
    by (simp add: Pipeline_def)
next
  assume a: "ty \<in> {''fanout'', ''parallel'', ''sequential''}
       \<and> list_all (\<lambda>p. \<exists>b. Pipeline_from own p = Returns (Inr b)) pre
       \<and> Pipeline_from own c = Returns (Inl e)"
  then have "build_children own (pre @ c # post) [] = Returns (Inl e)"
    by (simp add: build_children_abort)
  with a show "Pipeline (SerializedPipeline ty nm cfg (pre @ c # post) own) = Returns (Inl e)"
    by (auto simp: Pipeline_def)
next
  assume "Pipeline sp = Returns (Inl e')"
  then show "e' = ErrInvalidType
      \<or> (\<exists>n \<in> set (leaf_names sp). e' = Errorf (n @ '': invalid pipeline type''))"
    by (simp add: Pipeline_def Pipeline_from_errors(1))
qed

text \<open>
  A tree with a good leaf, then a leaf the factory refuses, then a node of an unknown
  kind: the refused leaf ends the assembly and its name is in the error.
\<close>

theorem Pipeline_fails_fast_witness:
  "Pipeline (SerializedPipeline ''sequential'' ''root'' ()
      [SerializedPipeline ''processor'' ''good'' () [] None,
       SerializedPipeline ''processor'' ''bad'' () [] None,
       SerializedPipeline ''bogus'' ''worse'' () [] None] (Some refusing_factory))
     = Returns (Inl (Errorf ''bad: invalid pipeline type''))
   \<and> Pipeline (SerializedPipeline ''bogus'' ''worse'' () [] (Some refusing_factory))
     = Returns (Inl ErrInvalidType)
   \<and> Pipeline (SerializedPipeline ''processor'' ''bad'' () [] (Some refusing_factory))
     = Returns (Inl (Errorf ''bad: invalid pipeline type''))"
proof -
  have pre: "list_all (\<lambda>p. \<exists>b. Pipeline_from (Some refusing_factory) p = Returns (Inr b))
      [SerializedPipeline ''processor'' ''good'' () [] None]"
    by (simp add: refusing_factory_def)
  have c: "Pipeline_from (Some refusing_factory) (SerializedPipeline ''processor'' ''bad'' () [] None)
      = Returns (Inl (Errorf ''bad: invalid pipeline type''))"
    by (simp add: refusing_factory_def)
  have f: "refusing_factory ''bad'' () = Inl (OtherError ''no such leaf'')"
    by (simp add: refusing_factory_def)
  show ?thesis
    using Pipeline_fails_fast [where ty = "''sequential''" and nm = "''root''" and cfg = "()"
        and own = "Some refusing_factory"
        and pre = "[SerializedPipeline ''processor'' ''good'' () [] None]"
        and c = "SerializedPipeline ''processor'' ''bad'' () [] None"
        and post = "[SerializedPipeline ''bogus'' ''worse'' () [] None]"
        and e = "Errorf ''bad: invalid pipeline type''"
        and factory = refusing_factory and procs = "[]" and e0 = "OtherError ''no such leaf''"
        and sp = "SerializedPipeline ''bogus'' ''worse'' () [] (Some refusing_factory)"
        and e' = ErrInvalidType]
      pre c f
    by (simp add: Pipeline_def refusing_factory_def)
qed

section \<open>Properties of the composites\<close>

subsection \<open>Facts about steps\<close>

lemma fire_Local_iff:
  "fire (Local i) s = Some s' \<longleftrightarrow>
     \<not> panicked s \<and> i < length (tasks s)
     \<and> (\<exists>h k. tasks s ! i = h # k \<and> exec_op i h k s = Some s')"
  by (auto simp: fire_def split: list.splits)

lemma fire_Sync_iff:
  "fire (Sync i j) s = Some s' \<longleftrightarrow>
     \<not> panicked s \<and> i < length (tasks s) \<and> j < length (tasks s) \<and> i \<noteq> j
     \<and> (\<exists>c m k h k'. tasks s ! i = Push c m # k \<and> tasks s ! j = h # k'
          \<and> recv_from h = Some c \<and> c < length (chans s)
          \<and> cap (chans s ! c) = 0 \<and> \<not> closed (chans s ! c)
          \<and> s' = deliver j h k' m (set_task i k (handed c m s)))"
  by (auto simp: fire_def split: list.splits op.splits)

lemma reachable_induct_inv:
  assumes "reachable s0 s" and "P s0"
    and "\<And>s a s'. P s \<Longrightarrow> fire a s = Some s' \<Longrightarrow> P s'"
  shows "P s"
  using assms(1) unfolding reachable_def
proof (induction rule: rtranclp_induct)
  case base
  then show ?case by (rule assms(2))
next
  case (step y z)
  then show ?case using assms(3) by (auto simp: step_def)
qed

lemma run_reachable: "run as s = Some s' \<Longrightarrow> reachable s s'"
proof (induction as arbitrary: s)
  case Nil
  then show ?case by (simp add: reachable_def)
next
  case (Cons a as)
  then obtain s1 where a: "fire a s = Some s1" and r: "run as s1 = Some s'"
    by (auto split: option.splits)
  from a have "step s s1" by (auto simp: step_def)
  moreover from Cons.IH [OF r] have "step\<^sup>*\<^sup>* s1 s'" by (simp add: reachable_def)
  ultimately show ?case unfolding reachable_def by (rule converse_rtranclp_into_rtranclp)
qed

lemma panicked_stuck: "panicked s \<Longrightarrow> stuck s"
  by (simp add: stuck_def fire_def)



lemma hook_call_as_TrackStarted:
  "panicked (hook_call ev s) \<longleftrightarrow>
     panicked s \<or> TrackStarted (env s) (elem s) p now w = Panics"
  by (auto simp: hook_call_def TrackStarted_def with_store_def panic_def log_events_def
      split: option.splits)



lemma parallel_loop_nil_panics:
  "parallel_loop (p # ps) 0 wg [] input output nm s = panic (snd (make_chan 0 s))"
  by (simp add: make_chan_def)

lemma Execute_Parallel_nil:
  "\<not> panicked s \<Longrightarrow>
   Execute (Parallel ChainName (p # ps) []) input output i k s =
     (if lookup_store (env s) (elem s) = Some None
      then panic (log_events [EvLog (Parallel_Name ChainName) ''starting''] s)
      else panic (snd (make_chan 0 (snd (new_wg (log_events
             [EvLog (Parallel_Name ChainName) ''starting'', EvStarted (Parallel_Name ChainName)] s))))))"
  by (auto simp: Let_def make_chan_def new_wg_def panic_def hook_call_def log_events_def
      split: option.splits)

lemma waiting_for_root_start: "waiting_for_root root cout (start c E root cin cout xs)"
  by (simp add: waiting_for_root_def start_def list_all_iff producer_op_def)

lemma waiting_for_root_step:
  assumes "waiting_for_root (Parallel nm (p # ps) []) cout s" and "fire a s = Some s'"
  shows "waiting_for_root (Parallel nm (p # ps) []) cout s'"
proof (cases a)
  case (Local i)
  with assms(2) obtain h k where i: "i < length (tasks s)" and t: "tasks s ! i = h # k"
    and e: "exec_op i h k s = Some s'" and np: "\<not> panicked s" by (auto simp: fire_Local_iff)
  from i assms(1) have "i = 0 \<or> i = 1 \<or> i = 2" by (auto simp: waiting_for_root_def)
  then show ?thesis
  proof (elim disjE)
    assume i0: "i = 0"
    with t assms(1) have "producer_op h" and k: "list_all producer_op k"
      by (auto simp: waiting_for_root_def)
    then show ?thesis using e assms(1) i0 k
      by (cases h)
        (auto simp: producer_op_def waiting_for_root_def set_task_def enqueue_def panic_def
          close_chan_def split: if_splits)
  next
    assume "i = 1"
    with t assms(1) have "h = Exec (Parallel nm (p # ps) []) 0 1" "k = []"
      by (auto simp: waiting_for_root_def)
    with e have "s' = Execute (Parallel nm (p # ps) []) 0 1 i [] s" by (simp del: Execute.simps)
    then show ?thesis using assms(1)
      by (simp add: Execute_Parallel_nil [OF np] waiting_for_root_def panic_def make_chan_def
          new_wg_def log_events_def nth_append del: Execute.simps)
  next
    assume "i = 2"
    with t assms(1) have "h = Drain 1" "k = []" by (auto simp: waiting_for_root_def)
    with e assms(1) show ?thesis
      by (auto simp: receive_def waiting_for_root_def new_chan_def split: if_splits)
  qed
next
  case (Sync i j)
  with assms(2) obtain c m k h k' where i: "i < length (tasks s)" "j < length (tasks s)" "i \<noteq> j"
    and t: "tasks s ! i = Push c m # k" "tasks s ! j = h # k'" and r: "recv_from h = Some c"
    by (auto simp: fire_Sync_iff)
  from i assms(1) have "i = 0 \<or> i = 1 \<or> i = 2" "j = 0 \<or> j = 1 \<or> j = 2"
    by (auto simp: waiting_for_root_def)
  with i t r assms(1) show ?thesis
    by (auto simp: waiting_for_root_def producer_op_def)
qed

lemma Parallel_nil_reachable:
  assumes "reachable (start c E (Parallel nm (p # ps) []) cin cout xs) s"
  shows "waiting_for_root (Parallel nm (p # ps) []) cout s"
  using assms
  by (rule reachable_induct_inv) (auto intro: waiting_for_root_start waiting_for_root_step)

lemma Parallel_nil_first_step:
  "\<exists>s'. fire (Local 1) (start c E (Parallel nm (p # ps) []) cin cout xs) = Some s' \<and> panicked s'"
proof -
  have "\<not> panicked (start c E (Parallel nm (p # ps) []) cin cout xs)" by (simp add: start_def)
  from Execute_Parallel_nil [OF this] show ?thesis
    by (simp add: fire_Local_iff start_def panic_def del: Execute.simps)
qed



subsection \<open>A composite without children\<close>




subsection \<open>Parallel with the slice it is built with\<close>

text \<open>
  C1.  \<open>Pipeline\<close> builds a \<open>Parallel\<close> whose \<open>procChans\<close> is nil, and \<open>Execute\<close>
  assigns to \<open>procChans[0]\<close> without making the slice.  With two pass-through children and
  the input 1, 2, 3, 4 the call of \<open>Execute\<close> panics before it starts a goroutine: in every
  state the run can reach no child has been given an item, nothing has been sent on the
  output and the output is open.
\<close>

theorem Parallel_two_passthrough_panics:
  "Pipeline (SerializedPipeline ''parallel'' ''p'' ()
      [SerializedPipeline ''processor'' ''a'' () [] None,
       SerializedPipeline ''processor'' ''b'' () [] None] (Some leaf_factory))
     = Returns (Inr (Parallel ''p'' [Leaf (pass_through ''a''), Leaf (pass_through ''b'')] []))
   \<and> (\<exists>s'. fire (Local 1)
          (start c E (Parallel ''p'' [Leaf (pass_through ''a''), Leaf (pass_through ''b'')] []) cin cout
             (map item_of [1, 2, 3, 4::int])) = Some s'
         \<and> panicked s' \<and> stuck s')
   \<and> (\<forall>s. reachable
          (start c E (Parallel ''p'' [Leaf (pass_through ''a''), Leaf (pass_through ''b'')] []) cin cout
             (map item_of [1, 2, 3, 4::int])) s
        \<longrightarrow> collected s = [] \<and> sent (chans s ! 1) = [] \<and> \<not> closed (chans s ! 1)
            \<and> length (tasks s) = 3)"
proof (intro conjI allI impI)
  show "Pipeline (SerializedPipeline ''parallel'' ''p'' ()
      [SerializedPipeline ''processor'' ''a'' () [] None,
       SerializedPipeline ''processor'' ''b'' () [] None] (Some leaf_factory))
     = Returns (Inr (Parallel ''p'' [Leaf (pass_through ''a''), Leaf (pass_through ''b'')] []))"
    by (simp add: Pipeline_def leaf_factory_def)
next
  show "\<exists>s'. fire (Local 1)
          (start c E (Parallel ''p'' [Leaf (pass_through ''a''), Leaf (pass_through ''b'')] []) cin cout
             (map item_of [1, 2, 3, 4::int])) = Some s'
         \<and> panicked s' \<and> stuck s'"
    using Parallel_nil_first_step [of c E "''p''"] by (blast intro: panicked_stuck)
next
  fix s
  assume "reachable
          (start c E (Parallel ''p'' [Leaf (pass_through ''a''), Leaf (pass_through ''b'')] []) cin cout
             (map item_of [1, 2, 3, 4::int])) s"
  from Parallel_nil_reachable [OF this]
  show "collected s = []" "sent (chans s ! 1) = []" "\<not> closed (chans s ! 1)" "length (tasks s) = 3"
    by (simp_all add: waiting_for_root_def new_chan_def)
qed

theorem Parallel_two_passthrough_panics_witness:
  "\<exists>s. run [Local 1]
          (start Background ''int'' (Parallel ''p'' [Leaf (pass_through ''a''), Leaf (pass_through ''b'')] []) 0 0
             (map item_of [1, 2, 3, 4::int])) = Some s
       \<and> panicked s \<and> collected s = [] \<and> \<not> closed (chans s ! 1) \<and> length (tasks s) = 3"
proof -
  let ?s0 = "start Background ''int'' (Parallel ''p'' [Leaf (pass_through ''a''), Leaf (pass_through ''b'')] []) 0 0
             (map item_of [1, 2, 3, 4::int])"
  from Parallel_nil_first_step [of Background "''int''" "''p''" "Leaf (pass_through ''a'')" "[Leaf (pass_through ''b'')]" 0 0 "map item_of [1, 2, 3, 4::int]"]
  obtain s' where f: "fire (Local 1) ?s0 = Some s'" and p: "panicked s'" by blast
  then have r: "run [Local 1] ?s0 = Some s'" by simp
  from run_reachable [OF r] Parallel_two_passthrough_panics [of Background "''int''" 0 0]
  have "collected s' = [] \<and> \<not> closed (chans s' ! 1) \<and> length (tasks s') = 3" by blast
  with r p show ?thesis by blast
qed

text \<open>
  C2.  The same defect, seen as liveness.  For a root \<open>Parallel\<close> with at least one child
  and the nil slice, whatever the input and the capacities: the call of \<open>Execute\<close> panics,
  and in no state the run can reach is the output closed or has \<open>Execute\<close> returned.
  Nested under a \<open>Sequential\<close>, the child's \<open>Execute\<close> brings the program down the same
  way.
\<close>

theorem Parallel_never_returns:
  "(\<exists>s'. fire (Local 1) (start c E (Parallel nm (p # ps) []) cin cout xs) = Some s'
         \<and> panicked s' \<and> stuck s')
   \<and> (\<forall>s. reachable (start c E (Parallel nm (p # ps) []) cin cout xs) s
        \<longrightarrow> \<not> closed (chans s ! 1) \<and> tasks s ! 1 = [Exec (Parallel nm (p # ps) []) 0 1]
            \<and> \<not> finished s)
   \<and> (\<exists>s. run [Local 1, Local 3]
          (start Background ''int'' (Sequential ''s'' [Parallel ''p'' [Leaf (pass_through ''a'')] []]) 0 0
             [item_of (1::int)]) = Some s
        \<and> panicked s \<and> \<not> closed (chans s ! 1))"
proof (intro conjI allI impI)
  show "\<exists>s'. fire (Local 1) (start c E (Parallel nm (p # ps) []) cin cout xs) = Some s'
         \<and> panicked s' \<and> stuck s'"
    using Parallel_nil_first_step [of c E nm p ps cin cout xs] by (blast intro: panicked_stuck)
next
  fix s
  assume "reachable (start c E (Parallel nm (p # ps) []) cin cout xs) s"
  from Parallel_nil_reachable [OF this]
  have w: "waiting_for_root (Parallel nm (p # ps) []) cout s" .
  then show "\<not> closed (chans s ! 1)" "tasks s ! 1 = [Exec (Parallel nm (p # ps) []) 0 1]"
    by (simp_all add: waiting_for_root_def new_chan_def)
  from w have "1 < length (tasks s)" "tasks s ! 1 \<noteq> []"
    by (simp_all add: waiting_for_root_def)
  then have "tasks s ! 1 \<in> set (tasks s)" "tasks s ! 1 \<noteq> []"
    by (simp_all only: nth_mem not_False_eq_True)
  then show "\<not> finished s" by (auto simp: finished_def list_all_iff)
next
  show "\<exists>s. run [Local 1, Local 3]
          (start Background ''int'' (Sequential ''s'' [Parallel ''p'' [Leaf (pass_through ''a'')] []]) 0 0
             [item_of (1::int)]) = Some s
        \<and> panicked s \<and> \<not> closed (chans s ! 1)"
    by (simp add: start_def fire_def Let_def new_wg_def make_chan_def go_def wg_add_def
        set_task_def log_events_def panic_def new_chan_def hook_call_def lookup_store_def
        Background_def)
qed

theorem Parallel_never_returns_witness:
  "\<exists>s. run [Local 1] (start Background ''int'' (Parallel ''p'' [Leaf (pass_through ''a'')] []) 0 0
             [item_of (1::int)]) = Some s
       \<and> panicked s \<and> \<not> closed (chans s ! 1) \<and> \<not> finished s"
proof -
  let ?s0 = "start Background ''int'' (Parallel ''p'' [Leaf (pass_through ''a'')] []) 0 0 [item_of (1::int)]"
  from Parallel_nil_first_step [of Background "''int''" "''p''" "Leaf (pass_through ''a'')" "[]" 0 0 "[item_of (1::int)]"]
  obtain s' where f: "fire (Local 1) ?s0 = Some s'" and p: "panicked s'" by blast
  then have r: "run [Local 1] ?s0 = Some s'" by simp
  from run_reachable [OF r]
    Parallel_never_returns [of Background "''int''" "''p''" "Leaf (pass_through ''a'')" "[]" 0 0 "[item_of (1::int)]"]
  have "\<not> closed (chans s' ! 1) \<and> \<not> finished s'" by blast
  with r p show ?thesis by blast
qed

text \<open>
  C3.  The same defect, seen as an equivalence.  A \<open>Parallel\<close> that wraps one child never
  hands an item to its caller, whatever the child and the input; the pass-through leaf
  called directly on the item 1 finishes and hands that item over.
\<close>

theorem Parallel_single_child_differs_from_child:
  "(\<forall>s. reachable (start c E (Parallel nm [child] []) cin cout xs) s \<longrightarrow> collected s = [])
   \<and> (\<exists>s. run [Local 1, Sync 0 1, Sync 1 2, Local 0, Local 1, Local 1, Local 2]
             (start Background ''int'' (Leaf (pass_through ''a'')) 0 0 [item_of (1::int)]) = Some s
          \<and> finished s \<and> collected s = [item_of 1])
   \<and> (\<exists>s. run [Local 1]
             (start Background ''int'' (Parallel ''p'' [Leaf (pass_through ''a'')] []) 0 0 [item_of (1::int)])
             = Some s
          \<and> stuck s \<and> collected s = [])"
proof (intro conjI allI impI)
  fix s
  assume "reachable (start c E (Parallel nm [child] []) cin cout xs) s"
  from Parallel_nil_reachable [OF this] show "collected s = []"
    by (simp add: waiting_for_root_def)
next
  show "\<exists>s. run [Local 1, Sync 0 1, Sync 1 2, Local 0, Local 1, Local 1, Local 2]
             (start Background ''int'' (Leaf (pass_through ''a'')) 0 0 [item_of (1::int)]) = Some s
          \<and> finished s \<and> collected s = [item_of 1]"
    by (simp add: start_def fire_def pass_through_def set_task_def new_chan_def receive_def
        deliver_def handed_def close_chan_def finished_def)
next
  let ?s0 = "start Background ''int'' (Parallel ''p'' [Leaf (pass_through ''a'')] []) 0 0 [item_of (1::int)]"
  from Parallel_nil_first_step [of Background "''int''" "''p''" "Leaf (pass_through ''a'')" "[]" 0 0 "[item_of (1::int)]"]
  obtain s' where f: "fire (Local 1) ?s0 = Some s'" and p: "panicked s'" by blast
  then have r: "run [Local 1] ?s0 = Some s'" by simp
  from Parallel_nil_reachable [OF run_reachable [OF r]] have "collected s' = []"
    by (simp add: waiting_for_root_def)
  with r p show "\<exists>s. run [Local 1] ?s0 = Some s \<and> stuck s \<and> collected s = []"
    by (blast intro: panicked_stuck)
qed

theorem Parallel_single_child_differs_from_child_witness:
  "\<exists>s. run [Local 1] (start Background ''int'' (Parallel ''p'' [Leaf (add_one ''a'')] []) 0 0
             [item_of (1::int)]) = Some s
       \<and> collected s = []"
proof -
  let ?s0 = "start Background ''int'' (Parallel ''p'' [Leaf (add_one ''a'')] []) 0 0 [item_of (1::int)]"
  from Parallel_nil_first_step [of Background "''int''" "''p''" "Leaf (add_one ''a'')" "[]" 0 0 "[item_of (1::int)]"]
  obtain s' where f: "fire (Local 1) ?s0 = Some s'" by blast
  then have r: "run [Local 1] ?s0 = Some s'" by simp
  from run_reachable [OF r]
    Parallel_single_child_differs_from_child [of Background "''int''" "''p''" "Leaf (add_one ''a'')" 0 0 "[item_of (1::int)]"]
  have "collected s' = []" by blast
  with r show ?thesis by blast
qed

section \<open>A Sequential of leaves\<close>

subsection \<open>The start of a Sequential in closed form\<close>





lemma seq_tk_inj: "k \<le> N + 1 \<Longrightarrow> k' \<le> N + 1 \<Longrightarrow> seq_tk N k = seq_tk N k' \<longleftrightarrow> k = k'"
  by (auto simp: seq_tk_def)

lemma seq_tk_bounds: "k \<le> N + 1 \<Longrightarrow> 3 \<le> seq_tk N k \<and> seq_tk N k < N + 5"
  by (auto simp: seq_tk_def)


lemma seq_ch_bounds: "k \<le> N + 2 \<Longrightarrow> seq_ch N k < N + 3"
  by (auto simp: seq_ch_def)

lemma seq_ch_0: "k \<le> N + 2 \<Longrightarrow> seq_ch N k = 0 \<longleftrightarrow> k = 0"
  by (auto simp: seq_ch_def)

lemma seq_ch_1: "k \<le> N + 2 \<Longrightarrow> seq_ch N k = Suc 0 \<longleftrightarrow> k = N + 2"
  by (auto simp: seq_ch_def)

lemma seq_stage_ok_frame:
  assumes "seq_stage_ok c nm gs s k"
    and "tasks s' ! seq_tk (length gs) k = tasks s ! seq_tk (length gs) k"
    and "chans s' ! seq_ch (length gs) k = chans s ! seq_ch (length gs) k"
    and "chans s' ! seq_ch (length gs) (k + 1) = chans s ! seq_ch (length gs) (k + 1)"
  shows "seq_stage_ok c nm gs s' k"
  using assms by (simp add: seq_stage_ok_def)

subsection \<open>One forwarding goroutine\<close>

lemma held_simps [simp]:
  "held [] = []" "held (Push c m # k) = [m]" "held (CloseCh c # k) = []"
  "held (WgDone g # k) = []" "held (Exec p a b # k) = []"
  "recv_from L = Some r \<Longrightarrow> held (L # k) = []"
  by (cases L; simp add: held_def)+

lemma stage_tail_simps [simp]:
  "stage_tail w g True = [CloseCh w, WgDone g]" "stage_tail w g False = [WgDone g]"
  by (simp_all add: stage_tail_def)















subsection \<open>The stages of a Sequential\<close>















subsection \<open>Fields after a primitive state change\<close>

lemma set_task_fields [simp]:
  "tasks (set_task i T s) = (tasks s)[i := T]" "chans (set_task i T s) = chans s"
  "wgs (set_task i T s) = wgs s" "hooks (set_task i T s) = hooks s"
  "collected (set_task i T s) = collected s" "panicked (set_task i T s) = panicked s"
  "env (set_task i T s) = env s" "elem (set_task i T s) = elem s"
  by (simp_all add: set_task_def)

lemma log_events_fields [simp]:
  "tasks (log_events evs s) = tasks s" "chans (log_events evs s) = chans s"
  "wgs (log_events evs s) = wgs s"
  "collected (log_events evs s) = collected s" "panicked (log_events evs s) = panicked s"
  "env (log_events evs s) = env s" "elem (log_events evs s) = elem s"
  by (simp_all add: log_events_def)

lemma enqueue_fields [simp]:
  "tasks (enqueue c m s) = tasks s"
  "chans (enqueue c m s) = (chans s)[c := (chans s ! c)\<lparr>buf := buf (chans s ! c) @ [m],
                                              sent := sent (chans s ! c) @ [m]\<rparr>]"
  "wgs (enqueue c m s) = wgs s"
  "collected (enqueue c m s) = collected s" "panicked (enqueue c m s) = panicked s"
  "env (enqueue c m s) = env s" "elem (enqueue c m s) = elem s"
  by (simp_all add: enqueue_def)

lemma dequeue_fields [simp]:
  "tasks (dequeue c s) = tasks s"
  "chans (dequeue c s) = (chans s)[c := (chans s ! c)\<lparr>buf := tl (buf (chans s ! c))\<rparr>]"
  "wgs (dequeue c s) = wgs s"
  "collected (dequeue c s) = collected s" "panicked (dequeue c s) = panicked s"
  "env (dequeue c s) = env s" "elem (dequeue c s) = elem s"
  by (simp_all add: dequeue_def)

lemma handed_fields [simp]:
  "tasks (handed c m s) = tasks s"
  "chans (handed c m s) = (chans s)[c := (chans s ! c)\<lparr>sent := sent (chans s ! c) @ [m]\<rparr>]"
  "wgs (handed c m s) = wgs s"
  "collected (handed c m s) = collected s" "panicked (handed c m s) = panicked s"
  "env (handed c m s) = env s" "elem (handed c m s) = elem s"
  by (simp_all add: handed_def)

lemma close_chan_fields [simp]:
  "tasks (close_chan c s) = tasks s"
  "chans (close_chan c s) = (chans s)[c := (chans s ! c)\<lparr>closed := True\<rparr>]"
  "wgs (close_chan c s) = wgs s"
  "collected (close_chan c s) = collected s" "panicked (close_chan c s) = panicked s"
  "env (close_chan c s) = env s" "elem (close_chan c s) = elem s"
  by (simp_all add: close_chan_def)




subsection \<open>Steps of a running Sequential\<close>



lemma seq_ch_simps [simp]: "seq_ch N 0 = 0" "seq_ch N (N + 2) = 1" "seq_ch N (Suc (Suc N)) = 1"
  by (simp_all add: seq_ch_def)

lemma seq_tk_ge3 [simp]: "k \<le> N + 1 \<Longrightarrow> seq_tk N k \<noteq> 0 \<and> seq_tk N k \<noteq> Suc 0 \<and> seq_tk N k \<noteq> 2"
  by (auto simp: seq_tk_def)

lemma seq_tk_ge3' [simp]:
  "k \<le> N + 1 \<Longrightarrow> 0 \<noteq> seq_tk N k \<and> Suc 0 \<noteq> seq_tk N k \<and> 2 \<noteq> seq_tk N k"
  by (auto simp: seq_tk_def)






subsection \<open>The steps of the caller and of the goroutine that waits\<close>






subsection \<open>The steps of a stage\<close>


lemma seq_ch_0' [simp]: "k \<le> N + 2 \<Longrightarrow> (0 = seq_ch N k) = (k = 0)"
  by (auto simp: seq_ch_def)

lemma seq_ch_1' [simp]: "k \<le> N + 2 \<Longrightarrow> (Suc 0 = seq_ch N k) = (k = N + 2)"
  by (auto simp: seq_ch_def)

lemma seq_ch_0'' [simp]: "k \<le> N + 2 \<Longrightarrow> (seq_ch N k = 0) = (k = 0)"
  by (auto simp: seq_ch_def)

lemma seq_ch_1'' [simp]: "k \<le> N + 2 \<Longrightarrow> (seq_ch N k = Suc 0) = (k = N + 2)"
  by (auto simp: seq_ch_def)

lemma seq_tk_inj' [simp]:
  "k \<le> N + 1 \<Longrightarrow> k' \<le> N + 1 \<Longrightarrow> (seq_tk N k = seq_tk N k') = (k = k')"
  by (rule seq_tk_inj)

lemma seq_tk_lt [simp]: "k \<le> N + 1 \<Longrightarrow> seq_tk N k < N + 5"
  by (simp add: seq_tk_bounds)

lemma seq_ch_lt [simp]: "k \<le> N + 2 \<Longrightarrow> seq_ch N k < N + 3"
  by (simp add: seq_ch_bounds)








subsection \<open>Handing an item over an unbuffered channel\<close>





subsection \<open>Every step keeps the invariant\<close>












subsection \<open>The invariant holds in every state of a run\<close>








subsection \<open>Enabled steps\<close>









subsection \<open>A Sequential cannot deadlock\<close>








subsection \<open>What the caller reads\<close>







subsection \<open>Every step lowers the measure\<close>


lemma weight_Cons [simp]: "weight L (h # k) = op_weight L h + weight L k"
  by (simp add: weight_def)

lemma weight_Nil [simp]: "weight L [] = 0"
  by (simp add: weight_def)

lemma weight_append [simp]: "weight L (a @ b) = weight L a + weight L b"
  by (simp add: weight_def)




lemma hook_call_fields [simp]:
  "tasks (hook_call ev s) = tasks s" "chans (hook_call ev s) = chans s"
  by (simp_all add: hook_call_def panic_def log_events_def split: option.splits)

lemma call_hook_fields [simp]:
  "tasks (call_hook h nm s) = tasks s" "chans (call_hook h nm s) = chans s"
  by (cases h; simp)+

lemma item_effect_fields [simp]:
  "tasks (item_effect h m s) = tasks s" "chans (item_effect h m s) = chans s"
  by (cases h; simp)+




lemma chan_todo_new [simp]: "chan_todo L (new_chan n) = L"
  by (simp add: chan_todo_def new_chan_def)

lemma chan_todo_simps [simp]:
  "chan_todo L (ch\<lparr>closed := x\<rparr>) = chan_todo L ch"
  "chan_todo L (ch\<lparr>buf := buf ch @ [m], sent := sent ch @ [m]\<rparr>) = chan_todo L ch"
  by (simp_all add: chan_todo_def)













subsection \<open>A nil store in the context\<close>







subsection \<open>Order in a Sequential\<close>





end
